theory Spec2Isabelle
  imports Main
begin

section \<open>The coroutine state: \<open>TGeneratorPromise\<close>\<close>

text \<open>
  \<open>Generator.h\<close> builds a lazy sequence on a C++20 coroutine. The coroutine frame is not
  source text of the header: it is what the compiler makes of a generator body. It is
  modelled as the part of the body that is still to run, a finite trace of what a body does
  to its frame and to its promise: it stores a value in an object of the frame (an
  initialisation or an assignment), an object of the frame goes out of scope, it
  \<open>co_yield\<close>s an object of the frame, it falls off the end (\<open>co_return\<close>), or it lets
  an exception escape. Objects of the frame are named by their slot, a number.
  \<open>await_transform\<close> is deleted in the source, so a body has no other suspension point.
  The model is of the build with exceptions (\<open>PLATFORM_EXCEPTIONS_DISABLED\<close> not
  defined).
\<close>

datatype ('a, 'e) body =
    Assign nat 'a "('a, 'e) body"
  | EndLifetime nat "('a, 'e) body"
  | Yield nat "('a, 'e) body"
  | Return
  | Raise 'e

text \<open>
  What the frame holds in the yielded object at each \<open>co_yield\<close> of a body, in order
  (\<open>None\<close> where nothing was ever stored in it), from a given content of the frame; and
  the failure the body ends with, if any. \<open>yielded\<close> is for a body that starts with an
  empty frame.
\<close>

fun observed :: "(nat \<Rightarrow> 'a option) \<Rightarrow> ('a, 'e) body \<Rightarrow> 'a option list" where
  "observed s (Assign x v rest) = observed (s(x \<mapsto> v)) rest"
| "observed s (EndLifetime x rest) = observed s rest"
| "observed s (Yield x rest) = s x # observed s rest"
| "observed s Return = []"
| "observed s (Raise e) = []"

definition yielded :: "('a, 'e) body \<Rightarrow> 'a option list" where
  "yielded b = observed (\<lambda>x. None) b"

fun raised :: "('a, 'e) body \<Rightarrow> 'e option" where
  "raised (Assign x v rest) = raised rest"
| "raised (EndLifetime x rest) = raised rest"
| "raised (Yield x rest) = raised rest"
| "raised Return = None"
| "raised (Raise e) = Some e"

text \<open>
  \<open>struct TGeneratorPromise\<close>. \<open>CurrentValuePtr\<close> is a \<open>T*\<close> into the frame: the slot of
  the object last yielded (\<open>None\<close> is \<open>nullptr\<close>). \<open>Exception\<close> is the
  \<open>std::exception_ptr\<close> (\<open>None\<close> is the empty one). The other fields are the state
  behind \<open>std::coroutine_handle\<close>: \<open>Frame\<close> is the rest of the body, \<open>Storage\<close> what the
  frame's memory holds in each slot, \<open>InLifetime\<close> the slots whose object is within its
  lifetime, \<open>Done\<close> whether the coroutine is suspended at \<open>final_suspend\<close>. The storage
  keeps what was last written when an object goes out of scope: the frame stays
  allocated until it is destroyed. \<open>Entries\<close> is instrumentation only: it counts how
  often control was transferred into the body (\<open>Handle.resume()\<close>); no operation reads
  it.
\<close>

record ('a, 'e) TGeneratorPromise =
  CurrentValuePtr :: "nat option"
  Exception :: "'e option"
  Frame :: "('a, 'e) body"
  Storage :: "nat \<Rightarrow> 'a option"
  InLifetime :: "nat set"
  Done :: bool
  Entries :: nat

text \<open>
  How a call can fail: a C++ exception leaving the call, a failed \<open>checkf\<close> (fatal, with its
  message), the dereference of a null pointer, the read of an object in which nothing was
  ever stored, \<open>std::terminate\<close> when an exception reaches the boundary of a \<open>noexcept\<close>
  function, and a call of a member that cannot be instantiated, because a name in
  its body does not resolve: a program with such a call does not compile.
\<close>

datatype 'e failure =
    Thrown 'e
  | CheckFailed string
  | NullAccess
  | IndeterminateRead
  | Terminate
  | IllFormed string

text \<open>The promise of a coroutine that was created and, after \<open>initial_suspend\<close>, not started.\<close>

definition initial_promise :: "('a, 'e) body \<Rightarrow> ('a, 'e) TGeneratorPromise" where
  "initial_promise b =
     \<lparr>CurrentValuePtr = None, Exception = None, Frame = b, Storage = (\<lambda>x. None),
      InLifetime = {}, Done = False, Entries = 0\<rparr>"

definition ThrowIfException :: "('a, 'e) TGeneratorPromise \<Rightarrow> 'e failure + unit" where
  "ThrowIfException p = (case Exception p of Some e \<Rightarrow> Inl (Thrown e) | None \<Rightarrow> Inr ())"

text \<open>
  \<open>yield_value\<close> stores \<open>std::addressof(YieldedValue)\<close>: the slot of the yielded object,
  not its value.
\<close>

definition yield_value ::
  "nat \<Rightarrow> ('a, 'e) TGeneratorPromise \<Rightarrow> ('a, 'e) TGeneratorPromise" where
  "yield_value YieldedValue p = p\<lparr>CurrentValuePtr := Some YieldedValue\<rparr>"

definition return_void :: "('a, 'e) TGeneratorPromise \<Rightarrow> ('a, 'e) TGeneratorPromise" where
  "return_void p = p"

definition unhandled_exception ::
  "'e \<Rightarrow> ('a, 'e) TGeneratorPromise \<Rightarrow> ('a, 'e) TGeneratorPromise" where
  "unhandled_exception current_exception p = p\<lparr>Exception := Some current_exception\<rparr>"

definition final_suspend :: "('a, 'e) TGeneratorPromise \<Rightarrow> ('a, 'e) TGeneratorPromise" where
  "final_suspend p = p\<lparr>Done := True\<rparr>"

text \<open>
  \<open>Handle.done()\<close> and \<open>Handle.resume()\<close> of the coroutine handle. A resume enters the body
  and runs it to its next suspension: stores and ends of scope change the frame; a
  \<open>co_yield\<close> calls \<open>yield_value\<close> and suspends there; the end of the body calls
  \<open>return_void\<close>, an escaping exception \<open>unhandled_exception\<close>, and both then suspend
  at \<open>final_suspend\<close>.
\<close>

definition handle_done :: "('a, 'e) TGeneratorPromise \<Rightarrow> bool" where
  "handle_done p = Done p"

fun run_body :: "('a, 'e) body \<Rightarrow> ('a, 'e) TGeneratorPromise \<Rightarrow> ('a, 'e) TGeneratorPromise" where
  "run_body (Assign x v rest) p =
     run_body rest (p\<lparr>Storage := (Storage p)(x \<mapsto> v), InLifetime := insert x (InLifetime p)\<rparr>)"
| "run_body (EndLifetime x rest) p = run_body rest (p\<lparr>InLifetime := InLifetime p - {x}\<rparr>)"
| "run_body (Yield x rest) p = (yield_value x p)\<lparr>Frame := rest\<rparr>"
| "run_body Return p = final_suspend (return_void (p\<lparr>Frame := Return\<rparr>))"
| "run_body (Raise e) p = final_suspend (unhandled_exception e (p\<lparr>Frame := Raise e\<rparr>))"

definition handle_resume :: "('a, 'e) TGeneratorPromise \<Rightarrow> ('a, 'e) TGeneratorPromise" where
  "handle_resume p = run_body (Frame p) (p\<lparr>Entries := Suc (Entries p)\<rparr>)"

text \<open>\<open>TGeneratorPromise<T>::Resume\<close> and \<open>IsDone\<close>.\<close>

definition Promise_Resume ::
  "('a, 'e) TGeneratorPromise \<Rightarrow> bool \<times> ('a, 'e) TGeneratorPromise" where
  "Promise_Resume p =
     (let p' = (if \<not> handle_done p then handle_resume p else p)
      in (\<not> handle_done p', p'))"

definition Promise_IsDone :: "('a, 'e) TGeneratorPromise \<Rightarrow> bool" where
  "Promise_IsDone p = handle_done p"

text \<open>
  What a read through \<open>CurrentValuePtr\<close> finds: no pointer (\<open>None\<close>), or the content of
  the slot it points to.
\<close>

definition pointee :: "('a, 'e) TGeneratorPromise \<Rightarrow> 'a option option" where
  "pointee p = (case CurrentValuePtr p of None \<Rightarrow> None | Some x \<Rightarrow> Some (Storage p x))"

section \<open>Shared and weak pointers to the coroutine state\<close>

text \<open>
  \<open>TSharedPtr\<close> and \<open>TWeakPtr\<close> come from the engine (\<open>CoreMinimal.h\<close>), not from this
  header. They are modelled by an explicit store: an address holds a reference controller
  with the count of shared owners and the object. When the last shared owner goes, the
  deleter given in \<open>TGenerator\<close>'s constructor runs \<open>Promise->Destroy()\<close>, which destroys the
  frame and the promise in it: the object becomes \<open>None\<close>. The controller itself stays, as
  it does while weak pointers refer to it. A pointer is an address or null (\<open>None\<close>).
\<close>

type_synonym addr = nat

record ('a, 'e) controller =
  SharedReferenceCount :: nat
  Object :: "('a, 'e) TGeneratorPromise option"

type_synonym ('a, 'e) heap = "addr \<Rightarrow> ('a, 'e) controller option"

text \<open>\<open>operator->\<close> of a shared pointer: the promise it owns; a null pointer cannot be followed.\<close>

definition arrow :: "('a, 'e) heap \<Rightarrow> addr option \<Rightarrow> 'e failure + ('a, 'e) TGeneratorPromise" where
  "arrow h sp =
     (case sp of
        None \<Rightarrow> Inl NullAccess
      | Some a \<Rightarrow>
          (case h a of
             None \<Rightarrow> Inl NullAccess
           | Some c \<Rightarrow> (case Object c of None \<Rightarrow> Inl NullAccess | Some p \<Rightarrow> Inr p)))"

text \<open>Writing back the promise after a member function changed it.\<close>

definition store :: "('a, 'e) heap \<Rightarrow> addr option \<Rightarrow> ('a, 'e) TGeneratorPromise \<Rightarrow> ('a, 'e) heap" where
  "store h sp p =
     (case sp of
        None \<Rightarrow> h
      | Some a \<Rightarrow> (case h a of None \<Rightarrow> h | Some c \<Rightarrow> h(a \<mapsto> c\<lparr>Object := Some p\<rparr>)))"

text \<open>
  \<open>TWeakPtr::IsValid\<close>: the pointer is not null and its object still has a shared owner.
  \<open>TWeakPtr::Pin\<close> makes a shared pointer, adding an owner, when the object is alive, and a
  null shared pointer otherwise. \<open>WeakPtr_Get\<close> is \<open>Pin().Get()\<close>, the address compared by
  the engine's \<open>==\<close> and \<open>!=\<close> on weak pointers.
\<close>

definition WeakPtr_IsValid :: "('a, 'e) heap \<Rightarrow> addr option \<Rightarrow> bool" where
  "WeakPtr_IsValid h wp =
     (case wp of
        None \<Rightarrow> False
      | Some a \<Rightarrow> (case h a of None \<Rightarrow> False | Some c \<Rightarrow> 0 < SharedReferenceCount c))"

definition AddSharedReference :: "('a, 'e) heap \<Rightarrow> addr \<Rightarrow> ('a, 'e) heap" where
  "AddSharedReference h a =
     (case h a of
        None \<Rightarrow> h
      | Some c \<Rightarrow> h(a \<mapsto> c\<lparr>SharedReferenceCount := Suc (SharedReferenceCount c)\<rparr>))"

definition WeakPtr_Pin :: "('a, 'e) heap \<Rightarrow> addr option \<Rightarrow> addr option \<times> ('a, 'e) heap" where
  "WeakPtr_Pin h wp =
     (case wp of
        None \<Rightarrow> (None, h)
      | Some a \<Rightarrow> if WeakPtr_IsValid h wp then (Some a, AddSharedReference h a) else (None, h))"

definition WeakPtr_Get :: "('a, 'e) heap \<Rightarrow> addr option \<Rightarrow> addr option" where
  "WeakPtr_Get h wp = (if WeakPtr_IsValid h wp then wp else None)"

text \<open>
  The destructor of a shared pointer: one owner fewer; the last one runs the deleter
  (\<open>Promise->Destroy()\<close>).
\<close>

definition ReleaseSharedReference :: "('a, 'e) heap \<Rightarrow> addr option \<Rightarrow> ('a, 'e) heap" where
  "ReleaseSharedReference h sp =
     (case sp of
        None \<Rightarrow> h
      | Some a \<Rightarrow>
          (case h a of
             None \<Rightarrow> h
           | Some c \<Rightarrow>
               if SharedReferenceCount c \<le> 1
               then h(a \<mapsto> c\<lparr>SharedReferenceCount := 0, Object := None\<rparr>)
               else h(a \<mapsto> c\<lparr>SharedReferenceCount := SharedReferenceCount c - 1\<rparr>)))"

section \<open>The strong handle \<open>TGenerator\<close> and the weak handle\<close>

datatype TGenerator = TGenerator (SharedPromise: "addr option")

datatype TWeakGeneratorHandle = TWeakGeneratorHandle (WeakPromise: "addr option")

text \<open>
  Calling a generator function allocates the frame at an address \<open>a\<close> the allocator chose,
  and \<open>get_return_object\<close> wraps the promise in the first shared pointer.
\<close>

definition get_return_object ::
  "addr \<Rightarrow> ('a, 'e) body \<Rightarrow> ('a, 'e) heap \<Rightarrow> TGenerator \<times> ('a, 'e) heap" where
  "get_return_object a b h =
     (TGenerator (Some a),
      h(a \<mapsto> \<lparr>SharedReferenceCount = 1, Object = Some (initial_promise b)\<rparr>))"

definition GetWeakHandle :: "TGenerator \<Rightarrow> TWeakGeneratorHandle" where
  "GetWeakHandle g = TWeakGeneratorHandle (SharedPromise g)"

text \<open>
  \<open>TWeakGeneratorHandle<T>::Pin\<close> returns \<open>TGenerator<T>{Promise.Pin()}\<close> when the weak
  pointer is valid and \<open>TGenerator<T>{}\<close> otherwise. \<open>TGenerator\<close> declares one
  constructor, the private \<open>TGenerator(TGeneratorPromise<T>*)\<close>: it has no default
  constructor and none from a \<open>TSharedPtr\<close>, so neither \<open>return\<close> has a constructor to
  call and \<open>Pin\<close> cannot be instantiated, whatever the handle.
\<close>

definition Pin ::
  "('a, 'e) heap \<Rightarrow> TWeakGeneratorHandle \<Rightarrow> ('e failure + TGenerator) \<times> ('a, 'e) heap" where
  "Pin h w =
     (if WeakPtr_IsValid h (WeakPromise w)
      then (Inl (IllFormed ''TGenerator<T>{Promise.Pin()}''), h)
      else (Inl (IllFormed ''TGenerator<T>{}''), h))"

text \<open>
  The accessors of \<open>TGenerator\<close>. \<open>GetCurrentValuePtr\<close> and \<open>HasValue\<close> read
  \<open>Promise->CurrentValue\<close>. \<open>TGeneratorPromise\<close> declares \<open>CurrentValuePtr\<close> and no
  member \<open>CurrentValue\<close>, so the two cannot be instantiated. \<open>GetCurrentValue\<close> names
  the declared field: it checks the pointer and returns a reference to what it points
  to, which the model reads from the frame's storage. For an object that has gone out
  of scope the C++ standard gives such a read no meaning; the model returns what the
  storage still holds.
\<close>

definition GetCurrentValuePtr :: "('a, 'e) heap \<Rightarrow> TGenerator \<Rightarrow> 'e failure + nat option" where
  "GetCurrentValuePtr h g = Inl (IllFormed ''CurrentValue'')"

definition HasValue :: "('a, 'e) heap \<Rightarrow> TGenerator \<Rightarrow> 'e failure + bool" where
  "HasValue h g = Inl (IllFormed ''CurrentValue'')"

definition IsDone :: "('a, 'e) heap \<Rightarrow> TGenerator \<Rightarrow> 'e failure + bool" where
  "IsDone h g =
     (case arrow h (SharedPromise g) of Inl x \<Rightarrow> Inl x | Inr p \<Rightarrow> Inr (Promise_IsDone p))"

definition GetCurrentValue :: "('a, 'e) heap \<Rightarrow> TGenerator \<Rightarrow> 'e failure + 'a" where
  "GetCurrentValue h g =
     (case arrow h (SharedPromise g) of
        Inl x \<Rightarrow> Inl (CheckFailed ''Attempted to access an empty generator'')
      | Inr p \<Rightarrow>
          (case pointee p of
             None \<Rightarrow> Inl (CheckFailed ''Attempted to access an empty generator'')
           | Some None \<Rightarrow> Inl IndeterminateRead
           | Some (Some v) \<Rightarrow> Inr v))"

text \<open>\<open>TGenerator<T>::Resume\<close>, with exceptions enabled.\<close>

definition Generator_Resume ::
  "('a, 'e) heap \<Rightarrow> TGenerator \<Rightarrow> ('e failure + bool) \<times> ('a, 'e) heap" where
  "Generator_Resume h g =
     (case arrow h (SharedPromise g) of
        Inl x \<Rightarrow> (Inl x, h)
      | Inr p \<Rightarrow>
          (let (Result, p') = Promise_Resume p;
               h' = store h (SharedPromise g) p'
           in case ThrowIfException p' of
                Inl x \<Rightarrow> (Inl x, h')
              | Inr u \<Rightarrow> (Inr Result, h')))"

text \<open>
  \<open>TGenerator<T>::begin\<close>, \<open>end\<close> and \<open>CreateIterator\<close> (declared \<open>noexcept\<close>).
  \<open>begin\<close> starts with a call of \<open>HasValue()\<close>, so it cannot be instantiated either, and
  neither can \<open>CreateIterator\<close>, whose body is \<open>return begin();\<close>.
\<close>

definition Generator_begin ::
  "('a, 'e) heap \<Rightarrow> TGenerator \<Rightarrow> ('e failure + TWeakGeneratorHandle) \<times> ('a, 'e) heap" where
  "Generator_begin h g =
     (case HasValue h g of
        Inl x \<Rightarrow> (Inl x, h)
      | Inr has \<Rightarrow>
          (case arrow h (SharedPromise g) of
             Inl x \<Rightarrow> (Inl x, h)
           | Inr p \<Rightarrow>
               (let p' = (if \<not> has then snd (Promise_Resume p) else p);
                    h' = store h (SharedPromise g) p'
                in case ThrowIfException p' of
                     Inl x \<Rightarrow> (Inl x, h')
                   | Inr u \<Rightarrow> (Inr (TWeakGeneratorHandle (SharedPromise g)), h'))))"

definition Generator_end :: TWeakGeneratorHandle where
  "Generator_end = TWeakGeneratorHandle None"



section \<open>The iterator \<open>TGeneratorIterator\<close>\<close>

text \<open>
  \<open>TGeneratorIterator\<close> derives from \<open>TWeakGeneratorHandle\<close>, inherits its
  constructors (an iterator can be made from a \<open>TGenerator\<close>) and adds no field. Its
  operations change the iterator itself (\<open>this->Promise = nullptr\<close>) and the promise, so
  they return the call's result, the store and the iterator after the call.
  \<open>operator++()\<close> returns \<open>*this\<close>; \<open>operator++(int)\<close> returns \<open>void\<close>.
\<close>

type_synonym TGeneratorIterator = TWeakGeneratorHandle

definition operator_bool :: "('a, 'e) heap \<Rightarrow> TGeneratorIterator \<Rightarrow> bool" where
  "operator_bool h it = WeakPtr_IsValid h (WeakPromise it)"

definition operator_pre_increment ::
  "('a, 'e) heap \<Rightarrow> TGeneratorIterator \<Rightarrow>
     ('e failure + TGeneratorIterator) \<times> ('a, 'e) heap \<times> TGeneratorIterator" where
  "operator_pre_increment h it =
     (if \<not> WeakPtr_IsValid h (WeakPromise it)
      then (Inl (CheckFailed ''Attempted to advance an invalid iterator''), h, it)
      else
        (let (StrongPromise, h1) = WeakPtr_Pin h (WeakPromise it)
         in case arrow h1 StrongPromise of
              Inl x \<Rightarrow> (Inl x, ReleaseSharedReference h1 StrongPromise, it)
            | Inr p \<Rightarrow>
                (let (Result, p') = Promise_Resume p;
                     h2 = store h1 StrongPromise p'
                 in if \<not> Result
                    then
                      (let it' = TWeakGeneratorHandle None
                       in case ThrowIfException p' of
                            Inl x \<Rightarrow> (Inl x, ReleaseSharedReference h2 StrongPromise, it')
                          | Inr u \<Rightarrow> (Inr it', ReleaseSharedReference h2 StrongPromise, it'))
                    else (Inr it, ReleaseSharedReference h2 StrongPromise, it))))"

definition operator_post_increment ::
  "('a, 'e) heap \<Rightarrow> TGeneratorIterator \<Rightarrow>
     ('e failure + unit) \<times> ('a, 'e) heap \<times> TGeneratorIterator" where
  "operator_post_increment h it =
     (case operator_pre_increment h it of
        (Inl x, h', it') \<Rightarrow> (Inl x, h', it')
      | (Inr r, h', it') \<Rightarrow> (Inr (), h', it'))"

text \<open>
  \<open>operator*\<close> reads \<open>*this->Promise.Pin()->CurrentValue\<close>: the undeclared member again,
  so it cannot be instantiated.
\<close>

definition operator_star ::
  "('a, 'e) heap \<Rightarrow> TGeneratorIterator \<Rightarrow> ('e failure + 'a) \<times> ('a, 'e) heap" where
  "operator_star h it = (Inl (IllFormed ''CurrentValue''), h)"

definition operator_eq :: "('a, 'e) heap \<Rightarrow> TGeneratorIterator \<Rightarrow> TGeneratorIterator \<Rightarrow> bool" where
  "operator_eq h this Other = (WeakPtr_Get h (WeakPromise this) = WeakPtr_Get h (WeakPromise Other))"

definition operator_neq :: "('a, 'e) heap \<Rightarrow> TGeneratorIterator \<Rightarrow> TGeneratorIterator \<Rightarrow> bool" where
  "operator_neq h this Other = (WeakPtr_Get h (WeakPromise this) \<noteq> WeakPtr_Get h (WeakPromise Other))"

section \<open>A live coroutine state\<close>

text \<open>
  The facts below read the operations at an address \<open>a\<close> whose controller \<open>c\<close> has a
  shared owner and holds the promise \<open>p\<close>. A temporary pin adds an owner and gives it back,
  so it leaves the count as it was.
\<close>

lemma live_arrow:
  "h a = Some c \<Longrightarrow> Object c = Some p \<Longrightarrow> arrow h (Some a) = Inr p"
  by (simp add: arrow_def)

lemma live_valid:
  "h a = Some c \<Longrightarrow> 0 < SharedReferenceCount c \<Longrightarrow> WeakPtr_IsValid h (Some a)"
  by (simp add: WeakPtr_IsValid_def)

lemma live_pin:
  "h a = Some c \<Longrightarrow> 0 < SharedReferenceCount c \<Longrightarrow>
   WeakPtr_Pin h (Some a) = (Some a, h(a \<mapsto> c\<lparr>SharedReferenceCount := Suc (SharedReferenceCount c)\<rparr>))"
  by (simp add: WeakPtr_Pin_def WeakPtr_IsValid_def AddSharedReference_def)

lemma pin_store_release:
  assumes "h a = Some c" "0 < SharedReferenceCount c"
  shows "ReleaseSharedReference (store (h(a \<mapsto> c\<lparr>SharedReferenceCount := Suc (SharedReferenceCount c)\<rparr>)) (Some a) p') (Some a)
         = h(a \<mapsto> c\<lparr>Object := Some p'\<rparr>)"
  using assms by (simp add: ReleaseSharedReference_def store_def)

lemma pin_release:
  assumes "h a = Some c" "0 < SharedReferenceCount c"
  shows "ReleaseSharedReference (h(a \<mapsto> c\<lparr>SharedReferenceCount := Suc (SharedReferenceCount c)\<rparr>)) (Some a) = h"
  using assms by (auto simp add: ReleaseSharedReference_def)

lemma live_pre_increment:
  assumes "h a = Some c" "0 < SharedReferenceCount c" "Object c = Some p"
  shows "operator_pre_increment h (TWeakGeneratorHandle (Some a)) =
     (case Promise_Resume p of
        (Result, p') \<Rightarrow>
          (if Result then Inr (TWeakGeneratorHandle (Some a))
           else (case Exception p' of
                   Some e \<Rightarrow> Inl (Thrown e)
                 | None \<Rightarrow> Inr (TWeakGeneratorHandle None)),
           h(a \<mapsto> c\<lparr>Object := Some p'\<rparr>),
           if Result then TWeakGeneratorHandle (Some a) else TWeakGeneratorHandle None))"
  using assms
  by (simp add: operator_pre_increment_def live_valid live_pin pin_store_release live_arrow
      ThrowIfException_def Let_def split: option.splits prod.splits)

lemma live_Resume:
  assumes "h a = Some c" "Object c = Some p"
  shows "Generator_Resume h (TGenerator (Some a)) =
     (case Promise_Resume p of
        (Result, p') \<Rightarrow>
          (case Exception p' of Some e \<Rightarrow> Inl (Thrown e) | None \<Rightarrow> Inr Result,
           h(a \<mapsto> c\<lparr>Object := Some p'\<rparr>)))"
  using assms
  by (simp add: Generator_Resume_def live_arrow store_def ThrowIfException_def Let_def
      split: option.splits prod.splits)

section \<open>A consumer that pulls repeatedly\<close>

text \<open>
  A consumer that calls \<open>Resume()\<close> on a handle \<open>n\<close> times, going on whatever a call
  returned or raised: \<open>Resume_times\<close> is the store after the calls, \<open>resumed\<close> the promise
  after as many calls of \<open>Promise->Resume()\<close>.
\<close>

primrec resumed :: "nat \<Rightarrow> ('a, 'e) TGeneratorPromise \<Rightarrow> ('a, 'e) TGeneratorPromise" where
  "resumed 0 p = p"
| "resumed (Suc n) p = resumed n (snd (Promise_Resume p))"

primrec Resume_times :: "nat \<Rightarrow> ('a, 'e) heap \<Rightarrow> TGenerator \<Rightarrow> ('a, 'e) heap" where
  "Resume_times 0 h g = h"
| "Resume_times (Suc n) h g = Resume_times n (snd (Generator_Resume h g)) g"

section \<open>How a promise runs through its body\<close>

lemma Promise_Resume_Done: "Done p \<Longrightarrow> Promise_Resume p = (False, p)"
  by (simp add: Promise_Resume_def handle_done_def)

lemma resumed_Done: "Done p \<Longrightarrow> resumed n p = p"
  by (induction n) (simp_all add: Promise_Resume_Done)

lemma same_object: "h a = Some c \<Longrightarrow> Object c = Some p \<Longrightarrow> h(a \<mapsto> c\<lparr>Object := Some p\<rparr>) = h"
  by (auto simp: fun_eq_iff)

lemma live_Resume_times:
  "h a = Some c \<Longrightarrow> Object c = Some p \<Longrightarrow>
   Resume_times n h (TGenerator (Some a)) = h(a \<mapsto> c\<lparr>Object := Some (resumed n p)\<rparr>)"
proof (induction n arbitrary: h c p)
  case 0
  then show ?case by (simp add: same_object)
next
  case (Suc n)
  obtain r p' where res: "Promise_Resume p = (r, p')"
    by (cases "Promise_Resume p")
  let ?h = "h(a \<mapsto> c\<lparr>Object := Some p'\<rparr>)"
  have step: "snd (Generator_Resume h (TGenerator (Some a))) = ?h"
    using live_Resume [of h a c p] Suc.prems res by simp
  have "Resume_times n ?h (TGenerator (Some a)) =
        ?h(a \<mapsto> (c\<lparr>Object := Some p'\<rparr>)\<lparr>Object := Some (resumed n p')\<rparr>)"
    by (rule Suc.IH) simp_all
  with step res show ?case by simp
qed

lemma run_body_Entries: "Entries (run_body b p) = Entries p"
  by (induction b arbitrary: p)
    (simp_all add: yield_value_def return_void_def unhandled_exception_def final_suspend_def)

lemma run_body_step:
  "\<not> Done p \<Longrightarrow>
   (observed (Storage p) b = [] \<longrightarrow>
      Done (run_body b p) \<and>
      Exception (run_body b p) = (case raised b of Some e \<Rightarrow> Some e | None \<Rightarrow> Exception p)) \<and>
   (observed (Storage p) b \<noteq> [] \<longrightarrow>
      \<not> Done (run_body b p) \<and> Exception (run_body b p) = Exception p \<and>
      observed (Storage (run_body b p)) (Frame (run_body b p)) = tl (observed (Storage p) b) \<and>
      raised (Frame (run_body b p)) = raised b \<and>
      pointee (run_body b p) = Some (hd (observed (Storage p) b)))"
  by (induction b arbitrary: p)
    (simp_all add: yield_value_def return_void_def unhandled_exception_def final_suspend_def
      pointee_def split: option.splits)

lemma Promise_Resume_step:
  assumes "\<not> Done p"
  shows "fst (Promise_Resume p) = (observed (Storage p) (Frame p) \<noteq> [])"
    and "observed (Storage p) (Frame p) = [] \<Longrightarrow>
         Done (snd (Promise_Resume p)) \<and>
         Exception (snd (Promise_Resume p)) =
           (case raised (Frame p) of Some e \<Rightarrow> Some e | None \<Rightarrow> Exception p)"
    and "observed (Storage p) (Frame p) \<noteq> [] \<Longrightarrow>
         \<not> Done (snd (Promise_Resume p)) \<and>
         Exception (snd (Promise_Resume p)) = Exception p \<and>
         observed (Storage (snd (Promise_Resume p))) (Frame (snd (Promise_Resume p))) =
           tl (observed (Storage p) (Frame p)) \<and>
         raised (Frame (snd (Promise_Resume p))) = raised (Frame p) \<and>
         pointee (snd (Promise_Resume p)) = Some (hd (observed (Storage p) (Frame p)))"
    and "Entries (snd (Promise_Resume p)) = Suc (Entries p)"
  using assms run_body_step [of "p\<lparr>Entries := Suc (Entries p)\<rparr>" "Frame p"]
  by (auto simp: Promise_Resume_def handle_done_def handle_resume_def run_body_Entries
      split: option.splits)

lemma resumed_prefix:
  "\<not> Done p \<Longrightarrow> k \<le> length (observed (Storage p) (Frame p)) \<Longrightarrow>
   \<not> Done (resumed k p) \<and> Exception (resumed k p) = Exception p \<and>
   observed (Storage (resumed k p)) (Frame (resumed k p)) =
     drop k (observed (Storage p) (Frame p)) \<and>
   raised (Frame (resumed k p)) = raised (Frame p) \<and>
   (0 < k \<longrightarrow> pointee (resumed k p) = Some (observed (Storage p) (Frame p) ! (k - 1)))"
proof (induction k arbitrary: p)
  case 0
  then show ?case by simp
next
  case (Suc k)
  let ?q = "snd (Promise_Resume p)"
  let ?xs = "observed (Storage p) (Frame p)"
  from Suc.prems have ne: "?xs \<noteq> []"
    by auto
  note step = Promise_Resume_step(3) [OF Suc.prems(1) ne]
  have unfold: "resumed (Suc k) p = resumed k ?q"
    by simp
  have q: "\<not> Done ?q" "k \<le> length (observed (Storage ?q) (Frame ?q))"
    using step Suc.prems by simp_all
  note ih = Suc.IH [OF q]
  have "pointee (resumed k ?q) = Some (?xs ! k)"
  proof (cases k)
    case 0
    then show ?thesis
      using step ne by (simp add: hd_conv_nth)
  next
    case (Suc m)
    then have "pointee (resumed k ?q) = Some (tl ?xs ! m)"
      using ih step by (simp del: resumed.simps)
    moreover have "tl ?xs ! m = ?xs ! k"
      using Suc Suc.prems(2) by (simp add: nth_tl)
    ultimately show ?thesis by simp
  qed
  moreover have "drop k (tl ?xs) = drop (Suc k) ?xs"
    by (simp add: drop_Suc)
  ultimately show ?case
    using ih step unfolding unfold by (simp del: resumed.simps)
qed

lemma resumed_beyond:
  "\<not> Done p \<Longrightarrow> length (observed (Storage p) (Frame p)) < k \<Longrightarrow>
   Done (resumed k p) \<and>
   Exception (resumed k p) = (case raised (Frame p) of Some e \<Rightarrow> Some e | None \<Rightarrow> Exception p)"
proof (induction k arbitrary: p)
  case 0
  then show ?case by simp
next
  case (Suc k)
  let ?q = "snd (Promise_Resume p)"
  show ?case
  proof (cases "observed (Storage p) (Frame p) = []")
    case True
    then show ?thesis
      using Promise_Resume_step(2) [OF Suc.prems(1) True] by (simp add: resumed_Done)
  next
    case False
    note step = Promise_Resume_step(3) [OF Suc.prems(1) False]
    have "\<not> Done ?q" "length (observed (Storage ?q) (Frame ?q)) < k"
      using step Suc.prems False
      by (cases "observed (Storage p) (Frame p)"; simp)+
    from Suc.IH [OF this] step show ?thesis
      by (simp split: option.splits)
  qed
qed

section \<open>Evaluation and reading facts\<close>

lemmas promise_eval =
  Promise_Resume_def handle_done_def handle_resume_def yield_value_def return_void_def
  unhandled_exception_def final_suspend_def initial_promise_def pointee_def

lemma fresh_promise [simp]:
  "\<not> Done (initial_promise b)" "Exception (initial_promise b) = None"
  "Frame (initial_promise b) = b"
  "observed (Storage (initial_promise b)) b = yielded b"
  by (simp_all add: initial_promise_def yielded_def)

lemma resumed_Suc: "resumed (Suc k) p = snd (Promise_Resume (resumed k p))"
  by (induction k arbitrary: p) simp_all

lemma live_GetCurrentValue:
  assumes "h a = Some c" "Object c = Some p"
  shows "GetCurrentValue h (TGenerator (Some a)) =
           (case pointee p of
              None \<Rightarrow> Inl (CheckFailed ''Attempted to access an empty generator'')
            | Some None \<Rightarrow> Inl IndeterminateRead
            | Some (Some v) \<Rightarrow> Inr v)"
  using assms by (simp add: GetCurrentValue_def live_arrow)

lemma nth_Resume:
  assumes live: "h a = Some c" "Object c = Some p"
  shows "fst (Generator_Resume (Resume_times k h (TGenerator (Some a))) (TGenerator (Some a))) =
     (case Exception (snd (Promise_Resume (resumed k p))) of
        Some e \<Rightarrow> Inl (Thrown e)
      | None \<Rightarrow> Inr (fst (Promise_Resume (resumed k p))))"
proof -
  let ?h = "h(a \<mapsto> c\<lparr>Object := Some (resumed k p)\<rparr>)"
  have "Resume_times k h (TGenerator (Some a)) = ?h"
    using live by (rule live_Resume_times)
  then show ?thesis
    using live_Resume [of ?h a "c\<lparr>Object := Some (resumed k p)\<rparr>" "resumed k p"]
    by (simp split: prod.splits option.splits)
qed

section \<open>The iterator's operations\<close>

text \<open>
  C10. Post-increment makes exactly the transition of pre-increment: the same store and
  the same iterator afterwards, the same failure if there is one. Its result carries no
  iterator (its type is \<open>unit\<close>, the source's \<open>void\<close>), so no copy of the iterator from
  before the advance comes back.
\<close>

theorem post_increment_is_pre_increment:
  "snd (operator_post_increment h i) = snd (operator_pre_increment h i) \<and>
   fst (operator_post_increment h i) = map_sum (\<lambda>x. x) (\<lambda>r. ()) (fst (operator_pre_increment h i))"
  by (simp add: operator_post_increment_def split: prod.splits sum.splits)

text \<open>
  C7. Two iterators are equal exactly when neither refers to a live state or both refer to
  the same live state, and \<open>operator!=\<close> is the negation of \<open>operator==\<close>. The comparison
  is one of identity: two distinct live states with the same contents are unequal.
\<close>

theorem iterator_equality_is_identity:
  "(operator_eq h x y \<longleftrightarrow>
      (\<not> operator_bool h x \<and> \<not> operator_bool h y) \<or>
      (operator_bool h x \<and> operator_bool h y \<and> WeakPromise x = WeakPromise y)) \<and>
   (operator_neq h x y \<longleftrightarrow> \<not> operator_eq h x y) \<and>
   (a \<noteq> b \<and> h a = Some c \<and> h b = Some c \<and> 0 < SharedReferenceCount c \<longrightarrow>
      \<not> operator_eq h (TWeakGeneratorHandle (Some a)) (TWeakGeneratorHandle (Some b)))"
  by (auto simp: operator_eq_def operator_neq_def operator_bool_def WeakPtr_Get_def
      WeakPtr_IsValid_def split: option.splits)

theorem iterator_equality_is_identity_witness:
  "\<not> operator_eq
       (snd (get_return_object 1 (Assign 0 (5::int) (Yield 0 Return) :: (int, string) body)
          (snd (get_return_object 0 (Assign 0 5 (Yield 0 Return)) Map.empty))))
       (TWeakGeneratorHandle (Some 0)) (TWeakGeneratorHandle (Some 1))"
  using iterator_equality_is_identity
    [of "snd (get_return_object 1 (Assign 0 (5::int) (Yield 0 Return) :: (int, string) body)
          (snd (get_return_object 0 (Assign 0 5 (Yield 0 Return)) Map.empty)))"
       "TWeakGeneratorHandle (Some 0)" "TWeakGeneratorHandle (Some 1)" 0 1
       "\<lparr>SharedReferenceCount = 1, Object = Some (initial_promise (Assign 0 5 (Yield 0 Return)))\<rparr>",
     THEN conjunct2, THEN conjunct2, THEN mp]
  by (simp add: get_return_object_def)

text \<open>
  C6. Advancing an iterator whose state is not alive fails the check "Attempted to advance
  an invalid iterator" and changes nothing. On a live state the advance pins it, calls
  \<open>Resume\<close> on the promise once and gives the pin back (the count of owners is as
  before). When the resume reports a value the iterator stays as it was. When it reports
  no more values the iterator is cleared, so it is \<open>end()\<close>, and a captured failure is
  thrown from this call, with the iterator already cleared.
\<close>

theorem advance_contract:
  "(\<not> operator_bool h i \<longrightarrow>
      operator_pre_increment h i =
        (Inl (CheckFailed ''Attempted to advance an invalid iterator''), h, i)) \<and>
   (h a = Some c \<and> 0 < SharedReferenceCount c \<and> Object c = Some p \<longrightarrow>
      (case Promise_Resume p of
         (Result, p') \<Rightarrow>
           operator_pre_increment h (TWeakGeneratorHandle (Some a)) =
             (if Result then Inr (TWeakGeneratorHandle (Some a))
              else (case Exception p' of
                      Some e \<Rightarrow> Inl (Thrown e)
                    | None \<Rightarrow> Inr Generator_end),
              h(a \<mapsto> c\<lparr>Object := Some p'\<rparr>),
              if Result then TWeakGeneratorHandle (Some a) else Generator_end) \<and>
           Entries p' = (if Done p then Entries p else Suc (Entries p))))"
proof (intro conjI impI)
  assume "\<not> operator_bool h i"
  then show "operator_pre_increment h i =
      (Inl (CheckFailed ''Attempted to advance an invalid iterator''), h, i)"
    by (simp add: operator_pre_increment_def operator_bool_def)
next
  assume live: "h a = Some c \<and> 0 < SharedReferenceCount c \<and> Object c = Some p"
  have entries: "Entries (snd (Promise_Resume p)) = (if Done p then Entries p else Suc (Entries p))"
    by (simp add: Promise_Resume_def handle_done_def handle_resume_def run_body_Entries Let_def)
  from live entries show "case Promise_Resume p of
         (Result, p') \<Rightarrow>
           operator_pre_increment h (TWeakGeneratorHandle (Some a)) =
             (if Result then Inr (TWeakGeneratorHandle (Some a))
              else (case Exception p' of
                      Some e \<Rightarrow> Inl (Thrown e)
                    | None \<Rightarrow> Inr Generator_end),
              h(a \<mapsto> c\<lparr>Object := Some p'\<rparr>),
              if Result then TWeakGeneratorHandle (Some a) else Generator_end) \<and>
           Entries p' = (if Done p then Entries p else Suc (Entries p))"
    using live_pre_increment [of h a c p]
    unfolding Generator_end_def by (simp split: prod.splits)
qed

theorem advance_contract_witness:
  "operator_pre_increment (Map.empty :: (int, string) heap) Generator_end =
     (Inl (CheckFailed ''Attempted to advance an invalid iterator''), Map.empty, Generator_end) \<and>
   fst (operator_pre_increment
          (snd (get_return_object 0 (Raise ''boom'' :: (int, string) body) Map.empty))
          (TWeakGeneratorHandle (Some 0))) = Inl (Thrown ''boom'') \<and>
   snd (snd (operator_pre_increment
          (snd (get_return_object 0 (Raise ''boom'' :: (int, string) body) Map.empty))
          (TWeakGeneratorHandle (Some 0)))) = Generator_end"
proof -
  let ?p = "initial_promise (Raise ''boom'' :: (int, string) body)"
  let ?c = "\<lparr>SharedReferenceCount = 1, Object = Some ?p\<rparr>"
  let ?h = "snd (get_return_object 0 (Raise ''boom'' :: (int, string) body) Map.empty)"
  have dead: "operator_pre_increment (Map.empty :: (int, string) heap) Generator_end =
     (Inl (CheckFailed ''Attempted to advance an invalid iterator''), Map.empty, Generator_end)"
    using advance_contract [where h = "Map.empty :: (int, string) heap" and i = Generator_end,
        THEN conjunct1, THEN mp]
    by (simp add: operator_bool_def Generator_end_def WeakPtr_IsValid_def)
  have res: "Promise_Resume ?p =
      (False, ?p\<lparr>Entries := Suc (Entries ?p), Exception := Some ''boom'', Done := True\<rparr>)"
    by (simp add: promise_eval)
  have live: "?h 0 = Some ?c \<and> 0 < SharedReferenceCount ?c \<and> Object ?c = Some ?p"
    by (simp add: get_return_object_def)
  from advance_contract [where h = ?h and a = 0 and c = ?c and p = ?p,
      THEN conjunct2, THEN mp, OF live] res dead
  show ?thesis by simp
qed

section \<open>Failures and finished states\<close>

text \<open>
  C1, as amended. Let the body of a fresh generator yield \<open>N\<close> values and then raise
  \<open>e\<close>. After \<open>k < N\<close> calls of \<open>Resume()\<close> the next pull succeeds: \<open>Resume()\<close>
  returns true, after which \<open>GetCurrentValue()\<close> reads the value of yield \<open>k + 1\<close>, and
  an advance of an iterator over the handle leaves the iterator as it is and the store as
  \<open>Resume()\<close> leaves it. After \<open>k \<ge> N\<close> calls the next pull throws \<open>e\<close>, call
  \<open>N + 1\<close> and every later one, since the promise keeps its \<open>Exception\<close>: \<open>Resume()\<close>
  throws it, and an advance throws it with the iterator cleared; advancing the cleared
  iterator fails the validity check.
\<close>

theorem failure_propagation:
  assumes "h a = Some c" "0 < SharedReferenceCount c" "Object c = Some (initial_promise b)"
    and "raised b = Some e"
  shows "(k < length (yielded b) \<longrightarrow>
            fst (Generator_Resume (Resume_times k h (TGenerator (Some a))) (TGenerator (Some a))) =
              Inr True \<and>
            GetCurrentValue (Resume_times (Suc k) h (TGenerator (Some a))) (TGenerator (Some a)) =
              (case yielded b ! k of Some v \<Rightarrow> Inr v | None \<Rightarrow> Inl IndeterminateRead) \<and>
            operator_pre_increment (Resume_times k h (TGenerator (Some a)))
                (TWeakGeneratorHandle (Some a)) =
              (Inr (TWeakGeneratorHandle (Some a)), Resume_times (Suc k) h (TGenerator (Some a)),
               TWeakGeneratorHandle (Some a))) \<and>
         (length (yielded b) \<le> k \<longrightarrow>
            fst (Generator_Resume (Resume_times k h (TGenerator (Some a))) (TGenerator (Some a))) =
              Inl (Thrown e) \<and>
            operator_pre_increment (Resume_times k h (TGenerator (Some a)))
                (TWeakGeneratorHandle (Some a)) =
              (Inl (Thrown e), Resume_times (Suc k) h (TGenerator (Some a)), Generator_end) \<and>
            fst (operator_pre_increment (Resume_times (Suc k) h (TGenerator (Some a)))
                   Generator_end) =
              Inl (CheckFailed ''Attempted to advance an invalid iterator''))"
proof -
  let ?g = "TGenerator (Some a)"
  let ?i = "TWeakGeneratorHandle (Some a)"
  let ?p = "initial_promise b"
  let ?q = "resumed k ?p"
  let ?c = "c\<lparr>Object := Some ?q\<rparr>"
  have hk: "Resume_times k h ?g = h(a \<mapsto> ?c)"
    using assms by (intro live_Resume_times) simp_all
  have hk': "Resume_times (Suc k) h ?g = h(a \<mapsto> c\<lparr>Object := Some (snd (Promise_Resume ?q))\<rparr>)"
    using live_Resume_times [of h a c ?p "Suc k"] assms by (simp only: resumed_Suc)
  have inc: "operator_pre_increment (Resume_times k h ?g) ?i =
     (if fst (Promise_Resume ?q) then Inr ?i
      else (case Exception (snd (Promise_Resume ?q)) of
              Some e \<Rightarrow> Inl (Thrown e)
            | None \<Rightarrow> Inr (TWeakGeneratorHandle None)),
      Resume_times (Suc k) h ?g,
      if fst (Promise_Resume ?q) then ?i else TWeakGeneratorHandle None)"
    using live_pre_increment [of "h(a \<mapsto> ?c)" a ?c ?q] assms
    by (simp only: hk hk') (simp split: prod.splits)
  have res: "fst (Generator_Resume (Resume_times k h ?g) ?g) =
     (case Exception (snd (Promise_Resume ?q)) of
        Some e \<Rightarrow> Inl (Thrown e)
      | None \<Rightarrow> Inr (fst (Promise_Resume ?q)))"
    using assms by (intro nth_Resume) simp_all
  have dead: "fst (operator_pre_increment (Resume_times (Suc k) h ?g) Generator_end) =
      Inl (CheckFailed ''Attempted to advance an invalid iterator'')"
    by (simp add: operator_pre_increment_def Generator_end_def WeakPtr_IsValid_def)
  show ?thesis
  proof (intro conjI impI)
    assume k: "k < length (yielded b)"
    then have pre: "\<not> Done ?q" "Exception ?q = None"
      "observed (Storage ?q) (Frame ?q) = drop k (yielded b)"
      using resumed_prefix [of ?p k] by simp_all
    with k have step: "fst (Promise_Resume ?q)" "Exception (snd (Promise_Resume ?q)) = None"
      using Promise_Resume_step(1) [of ?q] Promise_Resume_step(3) [of ?q] by simp_all
    from step res show "fst (Generator_Resume (Resume_times k h ?g) ?g) = Inr True"
      by simp
    from step inc show "operator_pre_increment (Resume_times k h ?g) ?i =
        (Inr ?i, Resume_times (Suc k) h ?g, ?i)"
      by simp
    have "pointee (resumed (Suc k) ?p) = Some (yielded b ! k)"
      using resumed_prefix [of ?p "Suc k"] k by (simp del: resumed.simps)
    moreover have "Resume_times (Suc k) h ?g = h(a \<mapsto> c\<lparr>Object := Some (resumed (Suc k) ?p)\<rparr>)"
      using assms by (intro live_Resume_times) simp_all
    ultimately show "GetCurrentValue (Resume_times (Suc k) h ?g) ?g =
        (case yielded b ! k of Some v \<Rightarrow> Inr v | None \<Rightarrow> Inl IndeterminateRead)"
      using live_GetCurrentValue
        [of "h(a \<mapsto> c\<lparr>Object := Some (resumed (Suc k) ?p)\<rparr>)" a
            "c\<lparr>Object := Some (resumed (Suc k) ?p)\<rparr>" "resumed (Suc k) ?p"]
      by (simp del: resumed.simps Resume_times.simps)
  next
    assume k: "length (yielded b) \<le> k"
    have step: "\<not> fst (Promise_Resume ?q) \<and> Exception (snd (Promise_Resume ?q)) = Some e"
    proof (cases "k = length (yielded b)")
      case True
      then have "\<not> Done ?q" "observed (Storage ?q) (Frame ?q) = []"
        "raised (Frame ?q) = Some e"
        using resumed_prefix [of ?p k] assms by simp_all
      then show ?thesis
        using Promise_Resume_step(1) [of ?q] Promise_Resume_step(2) [of ?q] by simp
    next
      case False
      with k have "length (observed (Storage ?p) (Frame ?p)) < k" by simp
      then have "Done ?q" "Exception ?q = Some e"
        using resumed_beyond [of ?p k] assms by simp_all
      then show ?thesis
        by (simp add: Promise_Resume_Done)
    qed
    from step res show "fst (Generator_Resume (Resume_times k h ?g) ?g) = Inl (Thrown e)"
      by simp
    from step inc show "operator_pre_increment (Resume_times k h ?g) ?i =
        (Inl (Thrown e), Resume_times (Suc k) h ?g, Generator_end)"
      by (simp add: Generator_end_def)
    from dead show "fst (operator_pre_increment (Resume_times (Suc k) h ?g) Generator_end) =
      Inl (CheckFailed ''Attempted to advance an invalid iterator'')" .
  qed
qed


theorem failure_propagation_witness:
  "fst (Generator_Resume
          (Resume_times 1
             (snd (get_return_object 0
                (Assign 0 (1::int) (Yield 0 (Assign 0 2 (Yield 0 (Raise ''boom''))))) Map.empty))
             (TGenerator (Some 0)))
          (TGenerator (Some 0))) = Inr True \<and>
   GetCurrentValue
     (Resume_times (Suc 1)
        (snd (get_return_object 0
           (Assign 0 (1::int) (Yield 0 (Assign 0 2 (Yield 0 (Raise ''boom''))))) Map.empty))
        (TGenerator (Some 0)))
     (TGenerator (Some 0)) = Inr 2 \<and>
   fst (Generator_Resume
          (Resume_times 2
             (snd (get_return_object 0
                (Assign 0 (1::int) (Yield 0 (Assign 0 2 (Yield 0 (Raise ''boom''))))) Map.empty))
             (TGenerator (Some 0)))
          (TGenerator (Some 0))) = Inl (Thrown ''boom'') \<and>
   fst (operator_pre_increment
          (Resume_times 7
             (snd (get_return_object 0
                (Assign 0 (1::int) (Yield 0 (Assign 0 2 (Yield 0 (Raise ''boom''))))) Map.empty))
             (TGenerator (Some 0)))
          (TWeakGeneratorHandle (Some 0))) = Inl (Thrown ''boom'')"
proof -
  let ?b = "Assign 0 (1::int) (Yield 0 (Assign 0 2 (Yield 0 (Raise ''boom''))))"
  let ?c = "\<lparr>SharedReferenceCount = 1, Object = Some (initial_promise ?b)\<rparr>"
  let ?h = "snd (get_return_object 0 ?b Map.empty)"
  have ys: "yielded ?b = [Some 1, Some 2]"
    by (simp add: yielded_def)
  have live: "?h 0 = Some ?c" "0 < SharedReferenceCount ?c" "Object ?c = Some (initial_promise ?b)"
    "raised ?b = Some ''boom''"
    by (simp_all add: get_return_object_def)
  note at = failure_propagation [of ?h 0 ?c ?b "''boom''", OF live]
  from at [of 1] at [of 2] at [of 7] show ?thesis
    by (simp add: ys)
qed

text \<open>
  C1 as stated fails: with the body that yields 1 and then raises, the second \<open>Resume()\<close>
  throws the failure and the third throws it again.
\<close>

theorem failure_raised_again_counterexample:
  "fst (Generator_Resume
          (Resume_times 1
             (snd (get_return_object 0 (Assign 0 (1::int) (Yield 0 (Raise ''boom''))) Map.empty))
             (TGenerator (Some 0)))
          (TGenerator (Some 0))) = Inl (Thrown ''boom'') \<and>
   fst (Generator_Resume
          (Resume_times 2
             (snd (get_return_object 0 (Assign 0 (1::int) (Yield 0 (Raise ''boom''))) Map.empty))
             (TGenerator (Some 0)))
          (TGenerator (Some 0))) = Inl (Thrown ''boom'')"
proof -
  let ?b = "Assign 0 (1::int) (Yield 0 (Raise ''boom''))"
  let ?p = "initial_promise ?b"
  let ?c = "\<lparr>SharedReferenceCount = 1, Object = Some ?p\<rparr>"
  let ?h = "snd (get_return_object 0 ?b Map.empty)"
  have live: "?h 0 = Some ?c" "Object ?c = Some ?p"
    by (simp_all add: get_return_object_def)
  have r1: "Exception (snd (Promise_Resume (resumed 1 ?p))) = Some ''boom''"
    by (simp add: promise_eval)
  have r2: "Exception (snd (Promise_Resume (resumed 2 ?p))) = Some ''boom''"
    by (simp add: numeral_2_eq_2 promise_eval)
  show ?thesis
    using nth_Resume [of ?h 0 ?c ?p 1, OF live] nth_Resume [of ?h 0 ?c ?p 2, OF live]
    by (simp only: r1 r2) simp
qed

text \<open>
  C3, as amended. On a handle whose coroutine has finished, \<open>Promise->Resume()\<close> returns
  false and leaves the promise as it is, the count of entries into the body included.
  \<open>Resume()\<close> on the handle leaves the store unchanged after any number \<open>n\<close> of earlier
  calls; it returns false when no failure is stored and throws the stored failure when one
  is.
\<close>

theorem Resume_after_completion:
  assumes "h a = Some c" "Object c = Some p" "Done p"
  shows "Promise_Resume p = (False, p) \<and>
         Resume_times n h (TGenerator (Some a)) = h \<and>
         Generator_Resume (Resume_times n h (TGenerator (Some a))) (TGenerator (Some a)) =
           (case Exception p of None \<Rightarrow> Inr False | Some e \<Rightarrow> Inl (Thrown e), h)"
proof -
  have res: "Promise_Resume p = (False, p)"
    using assms by (simp add: Promise_Resume_Done)
  have same: "Resume_times n h (TGenerator (Some a)) = h"
    using live_Resume_times [of h a c p n] assms by (simp add: resumed_Done same_object)
  have "Generator_Resume h (TGenerator (Some a)) =
      (case Exception p of None \<Rightarrow> Inr False | Some e \<Rightarrow> Inl (Thrown e), h)"
    using live_Resume [of h a c p] assms res by (simp add: same_object split: option.splits)
  with res same show ?thesis by simp
qed

theorem Resume_after_completion_witness:
  "Generator_Resume
     (Resume_times 3
        [0 \<mapsto> \<lparr>SharedReferenceCount = 1,
                Object = Some \<lparr>CurrentValuePtr = Some 0, Exception = None :: string option,
                  Frame = Return, Storage = [0 \<mapsto> (5::int)], InLifetime = {}, Done = True,
                  Entries = 2\<rparr>\<rparr>]
        (TGenerator (Some 0)))
     (TGenerator (Some 0)) =
   (Inr False,
    [0 \<mapsto> \<lparr>SharedReferenceCount = 1,
            Object = Some \<lparr>CurrentValuePtr = Some 0, Exception = None :: string option,
              Frame = Return, Storage = [0 \<mapsto> (5::int)], InLifetime = {}, Done = True,
              Entries = 2\<rparr>\<rparr>]) \<and>
   Generator_Resume
     (Resume_times 3
        [0 \<mapsto> \<lparr>SharedReferenceCount = 1,
                Object = Some \<lparr>CurrentValuePtr = Some 0, Exception = Some ''boom'',
                  Frame = Raise ''boom'', Storage = [0 \<mapsto> (5::int)], InLifetime = {},
                  Done = True, Entries = 2\<rparr>\<rparr>]
        (TGenerator (Some 0)))
     (TGenerator (Some 0)) =
   (Inl (Thrown ''boom''),
    [0 \<mapsto> \<lparr>SharedReferenceCount = 1,
            Object = Some \<lparr>CurrentValuePtr = Some 0, Exception = Some ''boom'',
              Frame = Raise ''boom'', Storage = [0 \<mapsto> (5::int)], InLifetime = {},
              Done = True, Entries = 2\<rparr>\<rparr>])"
proof -
  let ?p = "\<lparr>CurrentValuePtr = Some 0, Exception = None :: string option,
                  Frame = Return, Storage = [0 \<mapsto> (5::int)], InLifetime = {}, Done = True,
                  Entries = 2\<rparr>"
  let ?q = "\<lparr>CurrentValuePtr = Some 0, Exception = Some ''boom'',
                  Frame = Raise ''boom'', Storage = [0 \<mapsto> (5::int)], InLifetime = {},
                  Done = True, Entries = 2\<rparr>"
  have "Generator_Resume
     (Resume_times 3 [0 \<mapsto> \<lparr>SharedReferenceCount = 1, Object = Some ?p\<rparr>] (TGenerator (Some 0)))
     (TGenerator (Some 0)) =
     (Inr False, [0 \<mapsto> \<lparr>SharedReferenceCount = 1, Object = Some ?p\<rparr>])"
    using Resume_after_completion
      [of "[0 \<mapsto> \<lparr>SharedReferenceCount = 1, Object = Some ?p\<rparr>]" 0
          "\<lparr>SharedReferenceCount = 1, Object = Some ?p\<rparr>" ?p 3, THEN conjunct2, THEN conjunct2]
    by simp
  moreover have "Generator_Resume
     (Resume_times 3 [0 \<mapsto> \<lparr>SharedReferenceCount = 1, Object = Some ?q\<rparr>] (TGenerator (Some 0)))
     (TGenerator (Some 0)) =
     (Inl (Thrown ''boom''), [0 \<mapsto> \<lparr>SharedReferenceCount = 1, Object = Some ?q\<rparr>])"
    using Resume_after_completion
      [of "[0 \<mapsto> \<lparr>SharedReferenceCount = 1, Object = Some ?q\<rparr>]" 0
          "\<lparr>SharedReferenceCount = 1, Object = Some ?q\<rparr>" ?q 3, THEN conjunct2, THEN conjunct2]
    by simp
  ultimately show ?thesis by simp
qed

text \<open>
  C3 as stated fails: after the body that raises at once has finished, \<open>Resume()\<close> on the
  handle throws; it does not return false.
\<close>

theorem Resume_after_failure_counterexample:
  "IsDone
     (Resume_times 1 (snd (get_return_object 0 (Raise ''boom'' :: (int, string) body) Map.empty))
        (TGenerator (Some 0)))
     (TGenerator (Some 0)) = Inr True \<and>
   fst (Generator_Resume
          (Resume_times 1 (snd (get_return_object 0 (Raise ''boom'' :: (int, string) body) Map.empty))
             (TGenerator (Some 0)))
          (TGenerator (Some 0))) = Inl (Thrown ''boom'') \<and>
   fst (Generator_Resume
          (Resume_times 1 (snd (get_return_object 0 (Raise ''boom'' :: (int, string) body) Map.empty))
             (TGenerator (Some 0)))
          (TGenerator (Some 0))) \<noteq> Inr False"
proof -
  let ?b = "Raise ''boom'' :: (int, string) body"
  let ?p = "initial_promise ?b"
  let ?c = "\<lparr>SharedReferenceCount = 1, Object = Some ?p\<rparr>"
  let ?h = "snd (get_return_object 0 ?b Map.empty)"
  have live: "?h 0 = Some ?c" "Object ?c = Some ?p"
    by (simp_all add: get_return_object_def)
  have r1: "resumed 1 ?p =
      ?p\<lparr>Entries := 1, Frame := Raise ''boom'', Exception := Some ''boom'', Done := True\<rparr>"
    by (simp add: promise_eval)
  have "Resume_times 1 ?h (TGenerator (Some 0)) = ?h(0 \<mapsto> ?c\<lparr>Object := Some (resumed 1 ?p)\<rparr>)"
    using live by (rule live_Resume_times)
  then have "IsDone (Resume_times 1 ?h (TGenerator (Some 0))) (TGenerator (Some 0)) = Inr True"
    by (simp only: r1) (simp add: IsDone_def arrow_def Promise_IsDone_def handle_done_def)
  moreover have "fst (Generator_Resume (Resume_times 1 ?h (TGenerator (Some 0)))
      (TGenerator (Some 0))) = Inl (Thrown ''boom'')"
    using nth_Resume [of ?h 0 ?c ?p 1, OF live]
    by (simp only: r1) (simp add: Promise_Resume_Done)
  ultimately show ?thesis by simp
qed


section \<open>The value read after exhaustion\<close>

text \<open>
  The generator of the README, \<open>for (int i = Low; i < High; i++) co_yield i;\<close>. Slot 0 is
  the loop variable \<open>i\<close>: each turn yields it and, when resumed, increments it; when the
  test fails \<open>i\<close> goes out of scope and the body returns.
\<close>

function Range_loop :: "int \<Rightarrow> int \<Rightarrow> (int, 'e) body" where
  "Range_loop i High =
     (if i < High then Yield 0 (Assign 0 (i + 1) (Range_loop (i + 1) High))
      else EndLifetime 0 Return)"
  by pat_completeness auto
termination
  by (relation "measure (\<lambda>(i, High). nat (High - i))") auto

declare Range_loop.simps [simp del]

definition Range :: "int \<Rightarrow> int \<Rightarrow> (int, 'e) body" where
  "Range Low High = Assign 0 Low (Range_loop Low High)"

lemma Range_10_20:
  "Range 10 20 =
     Assign 0 10 (Yield 0 (Assign 0 11 (Yield 0 (Assign 0 12 (Yield 0 (Assign 0 13 (Yield 0
    (Assign 0 14 (Yield 0 (Assign 0 15 (Yield 0 (Assign 0 16 (Yield 0 (Assign 0 17 (Yield 0
    (Assign 0 18 (Yield 0 (Assign 0 19 (Yield 0 (Assign 0 20 (EndLifetime 0
     Return)))))))))))))))))))))"
  by (simp add: Range_def Range_loop.simps)

text \<open>
  C5. After exhaustion \<open>GetCurrentValue()\<close> should still return the last value
  yielded, as the README says. On \<open>Range(10, 20)\<close> the tenth \<open>Resume()\<close> exposes 19,
  the last value yielded; the eleventh returns false and finishes the coroutine, having
  run \<open>i++\<close> and left the scope of \<open>i\<close>. \<open>CurrentValuePtr\<close> still points to \<open>i\<close>, so
  \<open>GetCurrentValue()\<close> now reads 20, from an object whose lifetime has ended.
\<close>

theorem last_value_overwritten_after_exhaustion:
  "GetCurrentValue
     (Resume_times 10 (snd (get_return_object 0 (Range 10 20 :: (int, string) body) Map.empty))
        (TGenerator (Some 0)))
     (TGenerator (Some 0)) = Inr 19 \<and>
   fst (Generator_Resume
          (Resume_times 10 (snd (get_return_object 0 (Range 10 20 :: (int, string) body) Map.empty))
             (TGenerator (Some 0)))
          (TGenerator (Some 0))) = Inr False \<and>
   IsDone
     (Resume_times 11 (snd (get_return_object 0 (Range 10 20 :: (int, string) body) Map.empty))
        (TGenerator (Some 0)))
     (TGenerator (Some 0)) = Inr True \<and>
   GetCurrentValue
     (Resume_times 11 (snd (get_return_object 0 (Range 10 20 :: (int, string) body) Map.empty))
        (TGenerator (Some 0)))
     (TGenerator (Some 0)) = Inr 20 \<and>
   (case arrow
           (Resume_times 11
              (snd (get_return_object 0 (Range 10 20 :: (int, string) body) Map.empty))
              (TGenerator (Some 0)))
           (Some 0) of
      Inl x \<Rightarrow> False
    | Inr p \<Rightarrow> CurrentValuePtr p = Some 0 \<and> 0 \<notin> InLifetime p)"
proof -
  let ?b = "Range 10 20 :: (int, string) body"
  let ?p = "initial_promise ?b"
  let ?c = "\<lparr>SharedReferenceCount = 1, Object = Some ?p\<rparr>"
  let ?h = "snd (get_return_object 0 ?b Map.empty)"
  let ?g = "TGenerator (Some 0)"
  have live: "?h 0 = Some ?c" "Object ?c = Some ?p"
    by (simp_all add: get_return_object_def)
  have r10: "pointee (resumed 10 ?p) = Some (Some 19)" "\<not> Done (resumed 10 ?p)"
    "Exception (resumed 10 ?p) = None"
    by (simp_all add: Range_10_20 eval_nat_numeral promise_eval)
  have r11: "pointee (resumed 11 ?p) = Some (Some 20)" "Done (resumed 11 ?p)"
    "Exception (resumed 11 ?p) = None" "CurrentValuePtr (resumed 11 ?p) = Some 0"
    "0 \<notin> InLifetime (resumed 11 ?p)"
    by (simp_all add: Range_10_20 eval_nat_numeral promise_eval)
  have h10: "Resume_times 10 ?h ?g = ?h(0 \<mapsto> ?c\<lparr>Object := Some (resumed 10 ?p)\<rparr>)"
    using live by (rule live_Resume_times)
  have h11: "Resume_times 11 ?h ?g = ?h(0 \<mapsto> ?c\<lparr>Object := Some (resumed 11 ?p)\<rparr>)"
    using live by (rule live_Resume_times)
  have "resumed 11 ?p = snd (Promise_Resume (resumed 10 ?p))"
    using resumed_Suc [of 10 ?p] by simp
  with r11 have last: "\<not> fst (Promise_Resume (resumed 10 ?p))"
    "Exception (snd (Promise_Resume (resumed 10 ?p))) = None"
    by (simp_all add: Promise_Resume_def handle_done_def Let_def split: if_splits)
  have "GetCurrentValue (Resume_times 10 ?h ?g) ?g = Inr 19"
    unfolding h10
    using live_GetCurrentValue
      [of "?h(0 \<mapsto> ?c\<lparr>Object := Some (resumed 10 ?p)\<rparr>)" 0
          "?c\<lparr>Object := Some (resumed 10 ?p)\<rparr>" "resumed 10 ?p"] r10
    by simp
  moreover have "fst (Generator_Resume (Resume_times 10 ?h ?g) ?g) = Inr False"
    using nth_Resume [of ?h 0 ?c ?p 10, OF live] last by simp
  moreover have "GetCurrentValue (Resume_times 11 ?h ?g) ?g = Inr 20"
    unfolding h11
    using live_GetCurrentValue
      [of "?h(0 \<mapsto> ?c\<lparr>Object := Some (resumed 11 ?p)\<rparr>)" 0
          "?c\<lparr>Object := Some (resumed 11 ?p)\<rparr>" "resumed 11 ?p"] r11
    by simp
  moreover have "IsDone (Resume_times 11 ?h ?g) ?g = Inr True"
    unfolding h11 using r11
    by (simp add: IsDone_def arrow_def Promise_IsDone_def handle_done_def)
  moreover have "(case arrow (Resume_times 11 ?h ?g) (Some 0) of
      Inl x \<Rightarrow> False
    | Inr p \<Rightarrow> CurrentValuePtr p = Some 0 \<and> 0 \<notin> InLifetime p)"
    unfolding h11 using r11 by (simp add: arrow_def)
  ultimately show ?thesis by blast
qed

section \<open>Members that cannot be instantiated\<close>

text \<open>
  C2. Iterating from \<open>begin()\<close> to \<open>end()\<close> should visit the yielded values in order.
  On \<open>Range(10, 20)\<close> the loop cannot start: \<open>begin()\<close> is ill-formed, through
  \<open>HasValue()\<close> and the undeclared member \<open>CurrentValue\<close>, and it leaves the store
  untouched; \<open>operator*\<close>, which the loop's body needs, is ill-formed by the same name.
\<close>

theorem iteration_from_begin_is_ill_formed:
  "Generator_begin (snd (get_return_object 0 (Range 10 20 :: (int, string) body) Map.empty))
     (TGenerator (Some 0)) =
     (Inl (IllFormed ''CurrentValue''),
      snd (get_return_object 0 (Range 10 20 :: (int, string) body) Map.empty)) \<and>
   operator_star (snd (get_return_object 0 (Range 10 20 :: (int, string) body) Map.empty))
     (TWeakGeneratorHandle (Some 0)) =
     (Inl (IllFormed ''CurrentValue''),
      snd (get_return_object 0 (Range 10 20 :: (int, string) body) Map.empty))"
  by (simp add: Generator_begin_def HasValue_def operator_star_def)

text \<open>
  C4. For a body that yields no value, \<open>begin()\<close> should return an iterator equal to
  \<open>end()\<close>. On \<open>Range(5, 5)\<close> \<open>begin()\<close> returns no iterator at all: its call of
  \<open>HasValue()\<close> is ill-formed.
\<close>

theorem begin_of_empty_body_is_ill_formed:
  "HasValue (snd (get_return_object 0 (Range 5 5 :: (int, string) body) Map.empty))
     (TGenerator (Some 0)) = Inl (IllFormed ''CurrentValue'') \<and>
   fst (Generator_begin (snd (get_return_object 0 (Range 5 5 :: (int, string) body) Map.empty))
          (TGenerator (Some 0))) = Inl (IllFormed ''CurrentValue'') \<and>
   fst (Generator_begin (snd (get_return_object 0 (Range 5 5 :: (int, string) body) Map.empty))
          (TGenerator (Some 0))) \<noteq> Inr Generator_end"
  by (simp add: Generator_begin_def HasValue_def)


text \<open>
  C8. \<open>Pin()\<close> should return a strong handle sharing a live state and an empty handle
  for a state that is gone. It returns neither: on the weak handle of a live generator
  the statement \<open>return TGenerator<T>{Promise.Pin()};\<close> has no constructor to call, and
  on a null weak handle \<open>return TGenerator<T>{};\<close> has none.
\<close>

theorem Pin_is_ill_formed:
  "Pin (snd (get_return_object 0 (Range 10 20 :: (int, string) body) Map.empty))
     (GetWeakHandle (TGenerator (Some 0))) =
     (Inl (IllFormed ''TGenerator<T>{Promise.Pin()}''),
      snd (get_return_object 0 (Range 10 20 :: (int, string) body) Map.empty)) \<and>
   Pin (Map.empty :: (int, string) heap) (TWeakGeneratorHandle None) =
     (Inl (IllFormed ''TGenerator<T>{}''), Map.empty)"
  by (simp add: Pin_def GetWeakHandle_def WeakPtr_IsValid_def get_return_object_def)

end
